theory Spec2Isabelle
  imports Main
begin

section \<open>The diff viewer component of src/components/common/DiffViewer.js\<close>

text \<open>
  The component keeps five pieces of hook state (the list of completed diff keys, the
  flag and the popover options of the completed-files counter, the view style, and the
  boolean state of the scroll reducer), reads and writes one key of the browser's local
  storage, and scrolls the window. The embedding makes each of these explicit:
  \<^item> the hook state is the record \<open>hook_state\<close>;
  \<^item> local storage is a map from keys to stored strings (\<open>None\<close> is the \<open>null\<close> of
    \<open>getItem\<close> on a missing key);
  \<^item> every scroll call, and the \<open>TypeError\<close> of a call on a \<open>null\<close> ref, is an
    \<open>effect\<close> that a handler returns;
  \<^item> an event handler is created by a render and closes over the state of that
    render; it hands React either a new value or an updater function, which React
    applies to the state current at that time. A handler therefore takes the rendered
    value it closes over as an argument of its own.
\<close>

subsection \<open>Diff keys\<close>

type_synonym diffKey = string

record diff_file =
  oldRevision :: string
  newRevision :: string

text \<open>\<open>getDiffKey\<close>: the template literal of the two revisions, one after the other.\<close>

definition getDiffKey :: "'a diff_file_scheme \<Rightarrow> diffKey" where
  "getDiffKey f = oldRevision f @ newRevision f"

subsection \<open>Hook state\<close>

record popoverOpts =
  content :: string
  cursorType :: string

record possibleOpts =
  done_opts :: popoverOpts
  top_opts :: popoverOpts

definition donePopoverPossibleOpts :: possibleOpts where
  "donePopoverPossibleOpts =
     \<lparr> done_opts = \<lparr> content = ''Scroll to Done section'', cursorType = ''s-resize'' \<rparr>,
       top_opts = \<lparr> content = ''Scroll to Top'', cursorType = ''n-resize'' \<rparr> \<rparr>"

record hook_state =
  completedDiffs :: "diffKey list"
  isGoToDoneClicked :: bool
  donePopoverOpts :: popoverOpts
  diffViewStyle :: string
  stopScrolling :: bool

subsection \<open>Browser: storage, location, document, scrolling\<close>

type_synonym storage = "string \<rightharpoonup> string"

definition localStorage_getItem :: "storage \<Rightarrow> string \<Rightarrow> string option" where
  "localStorage_getItem st k = st k"

definition localStorage_setItem :: "storage \<Rightarrow> string \<Rightarrow> string \<Rightarrow> storage" where
  "localStorage_setItem st k v = st(k \<mapsto> v)"

text \<open>
  \<open>a || b\<close> for a string-or-null \<open>a\<close>: \<open>null\<close> and the empty string are the two falsy
  values of that type.
\<close>

definition js_or :: "string option \<Rightarrow> string \<Rightarrow> string" where
  "js_or a b = (case a of None \<Rightarrow> b | Some v \<Rightarrow> if v = [] then b else v)"

record 'el browser =
  location_hash :: string
  getElementById :: "string \<Rightarrow> 'el option"

datatype 'el effect =
    ScrollIntoView 'el
  | ScrollIntoViewSmooth 'el
  | WindowScrollToTopSmooth
  | TypeError

text \<open>\<open>scrollToRef\<close>: \<open>ref.current.scrollIntoView\<close>; on a \<open>null\<close> \<open>current\<close> the call throws.\<close>

definition scrollToRef :: "'el option \<Rightarrow> 'el effect" where
  "scrollToRef current = (case current of None \<Rightarrow> TypeError | Some el \<Rightarrow> ScrollIntoViewSmooth el)"

text \<open>
  \<open>jumpToAnchor\<close> is the reducer of \<open>useReducer(jumpToAnchor, false)\<close>: its argument is the
  reducer state, its result the next reducer state, together with the scroll calls made.
  \<open>window.location.hash\<close> is a string, falsy exactly when empty; \<open>slice(1)\<close> drops the
  leading character.
\<close>

definition jumpToAnchor :: "'el browser \<Rightarrow> bool \<Rightarrow> bool \<times> 'el effect list" where
  "jumpToAnchor b stop =
     (if location_hash b = [] \<or> stop then (True, [])
      else (case getElementById b (drop 1 (location_hash b)) of
              None \<Rightarrow> (True, [])
            | Some ref \<Rightarrow> (True, [ScrollIntoView ref])))"

text \<open>
  \<open>jumpToAnchorOnce\<close> is the dispatch function of that reducer. A sequence of dispatches,
  each in the browser as it is at that moment, threads the reducer state and collects
  the scroll calls in order.
\<close>

fun jumpToAnchorOnce :: "'el browser list \<Rightarrow> bool \<Rightarrow> bool \<times> 'el effect list" where
  "jumpToAnchorOnce [] stop = (stop, [])"
| "jumpToAnchorOnce (b # bs) stop =
     (case jumpToAnchor b stop of
        (stop', es) \<Rightarrow> (case jumpToAnchorOnce bs stop' of (stop'', es') \<Rightarrow> (stop'', es @ es')))"

subsection \<open>Handlers\<close>

text \<open>
  \<open>handleCompleteDiff\<close>: the first argument is the \<open>completedDiffs\<close> of the render that
  created the handler (the list \<open>includes\<close> is asked about); the result is the updater
  handed to \<open>setCompletedDiffs\<close>. Diff keys are strings, on which \<open>includes\<close> and \<open>!==\<close>
  are plain equality.
\<close>

definition handleCompleteDiff :: "diffKey list \<Rightarrow> diffKey \<Rightarrow> diffKey list \<Rightarrow> diffKey list" where
  "handleCompleteDiff rendered diffKey =
     (if diffKey \<in> set rendered
      then (\<lambda>prevCompletedDiffs. filter (\<lambda>completedDiff. completedDiff \<noteq> diffKey) prevCompletedDiffs)
      else (\<lambda>prevCompletedDiffs. prevCompletedDiffs @ [diffKey]))"

text \<open>
  \<open>setCompletedDiffs\<close> with an updater function; a call with a plain value \<open>v\<close> is the
  call with the constant updater \<open>\<lambda>_. v\<close>.
\<close>

definition setCompletedDiffs :: "(diffKey list \<Rightarrow> diffKey list) \<Rightarrow> hook_state \<Rightarrow> hook_state" where
  "setCompletedDiffs upd s = s\<lparr> completedDiffs := upd (completedDiffs s) \<rparr>"

definition resetCompletedDiffs :: "hook_state \<Rightarrow> hook_state" where
  "resetCompletedDiffs s = setCompletedDiffs (\<lambda>_. []) s"

text \<open>
  \<open>handleCompletedFilesCounterClick\<close>: \<open>clicked\<close> is the \<open>isGoToDoneClicked\<close> of the render
  that created the handler, \<open>doneTitleRef\<close> the \<open>current\<close> of the ref. Both setters are
  called before the scroll, so the state changes also when the scroll throws.
\<close>

definition handleCompletedFilesCounterClick ::
    "bool \<Rightarrow> 'el option \<Rightarrow> hook_state \<Rightarrow> hook_state \<times> 'el effect" where
  "handleCompletedFilesCounterClick clicked doneTitleRef s =
     (if clicked
      then (s\<lparr> isGoToDoneClicked := \<not> clicked,
                donePopoverOpts := done_opts donePopoverPossibleOpts \<rparr>,
            WindowScrollToTopSmooth)
      else (s\<lparr> isGoToDoneClicked := \<not> clicked,
                donePopoverOpts := top_opts donePopoverPossibleOpts \<rparr>,
            scrollToRef doneTitleRef))"

definition handleViewStyleChange :: "string \<Rightarrow> hook_state \<times> storage \<Rightarrow> hook_state \<times> storage" where
  "handleViewStyleChange newViewStyle p =
     (case p of (s, st) \<Rightarrow>
        (s\<lparr> diffViewStyle := newViewStyle \<rparr>, localStorage_setItem st ''viewStyle'' newViewStyle))"

text \<open>The effect \<open>useEffect(..., [isDone])\<close>, run with the \<open>isDone\<close> of its render.\<close>

definition useEffect_isDone :: "bool \<Rightarrow> hook_state \<Rightarrow> hook_state" where
  "useEffect_isDone fetched s = (if \<not> fetched then resetCompletedDiffs s else s)"

text \<open>The initial values of the \<open>useState\<close> and \<open>useReducer\<close> calls.\<close>

definition initial_state :: "storage \<Rightarrow> hook_state" where
  "initial_state st =
     \<lparr> completedDiffs = [],
       isGoToDoneClicked = False,
       donePopoverOpts = done_opts donePopoverPossibleOpts,
       diffViewStyle = js_or (localStorage_getItem st ''viewStyle'') ''split'',
       stopScrolling = False \<rparr>"

subsection \<open>Rendering\<close>

text \<open>
  What \<open>useFetchDiff\<close> returns. The hook is a collaborator defined outside
  \<open>DiffViewer.js\<close>; the component sees three values, and nothing in the component
  relates them.
\<close>

record fetchDiff =
  isLoading :: bool
  isDone :: bool
  diff :: "diff_file list"

text \<open>
  \<open>renderUpgradeDoneMessage\<close> yields \<open>false\<close>, which React renders as nothing, or the
  success alert with the message that the upgrade is done.
\<close>

datatype alert = JsFalse | Alert_upgrade_done

definition renderUpgradeDoneMessage :: "'a list \<Rightarrow> 'b list \<Rightarrow> alert" where
  "renderUpgradeDoneMessage d c = (if length d = length c then Alert_upgrade_done else JsFalse)"

record main_view =
  shown_diffViewStyle :: string
  upgradeDoneMessage :: alert
  completed :: nat
  total :: nat
  popoverContent :: string
  popoverCursorType :: string

datatype view = Null | DiffLoading | Main main_view

text \<open>
  The render function, as far as the state above decides it: \<open>null\<close> without
  \<open>shouldShowDiff\<close>, the loading placeholder while \<open>isLoading\<close>, and otherwise the view
  with the diff sections, the done message and the completed-files counter.
\<close>

definition DiffViewer :: "bool \<Rightarrow> fetchDiff \<Rightarrow> hook_state \<Rightarrow> view" where
  "DiffViewer showDiff f s =
     (if \<not> showDiff then Null
      else if isLoading f then DiffLoading
      else Main \<lparr> shown_diffViewStyle = diffViewStyle s,
                  upgradeDoneMessage = renderUpgradeDoneMessage (diff f) (completedDiffs s),
                  completed = length (completedDiffs s),
                  total = length (diff f),
                  popoverContent = content (donePopoverOpts s),
                  popoverCursorType = cursorType (donePopoverOpts s) \<rparr>)"

subsection \<open>The component as a state machine\<close>

text \<open>
  The mounted component: its hook state, the local storage, the props and hook results
  of the latest render, and the scroll calls made so far.

  Events: a render with new props and hook results (after which the \<open>isDone\<close> effect
  runs if \<open>isDone\<close> differs from that of the render before), and the four callbacks
  handed to children. A callback is the handler of the render that handed it out, and
  whoever holds it can call it at any time: nothing in a handler asks what is shown.
  The event of a call therefore carries what its handler closes over, the
  \<open>completedDiffs\<close> or the \<open>isGoToDoneClicked\<close> of its render, and the update is
  applied to the state current at the call.
\<close>

record 'el world =
  hooks :: hook_state
  localStorage :: storage
  shouldShowDiff :: bool
  useFetchDiff :: fetchDiff
  effects :: "'el effect list"

datatype 'el event =
    Render bool fetchDiff
  | CompleteDiff "diffKey list" diffKey
  | CounterClick bool "'el option"
  | ViewStyleChange string
  | AnimationComplete "'el browser"

definition mount :: "storage \<Rightarrow> bool \<Rightarrow> fetchDiff \<Rightarrow> 'el world" where
  "mount st showDiff f =
     \<lparr> hooks = useEffect_isDone (isDone f) (initial_state st),
       localStorage = st,
       shouldShowDiff = showDiff,
       useFetchDiff = f,
       effects = [] \<rparr>"

fun step :: "'el world \<Rightarrow> 'el event \<Rightarrow> 'el world" where
  "step w (Render showDiff f) =
     w\<lparr> hooks := (if isDone f = isDone (useFetchDiff w) then hooks w
                    else useEffect_isDone (isDone f) (hooks w)),
        shouldShowDiff := showDiff,
        useFetchDiff := f \<rparr>"
| "step w (CompleteDiff rendered k) =
     w\<lparr> hooks := setCompletedDiffs (handleCompleteDiff rendered k) (hooks w) \<rparr>"
| "step w (CounterClick clicked r) =
     (case handleCompletedFilesCounterClick clicked r (hooks w) of
        (h, e) \<Rightarrow> w\<lparr> hooks := h, effects := effects w @ [e] \<rparr>)"
| "step w (ViewStyleChange v) =
     (case handleViewStyleChange v (hooks w, localStorage w) of
        (h, st) \<Rightarrow> w\<lparr> hooks := h, localStorage := st \<rparr>)"
| "step w (AnimationComplete b) =
     (case jumpToAnchor b (stopScrolling (hooks w)) of
        (stop, es) \<Rightarrow> w\<lparr> hooks := (hooks w)\<lparr> stopScrolling := stop \<rparr>,
                          effects := effects w @ es \<rparr>)"

definition run :: "'el world \<Rightarrow> 'el event list \<Rightarrow> 'el world" where
  "run w evs = foldl step w evs"


text \<open>
  Direct calls of the two functions that change \<open>completedDiffs\<close>, in any order. A call
  of \<open>handleCompleteDiff\<close> names the \<open>completedDiffs\<close> of the render whose handler is
  called.
\<close>

datatype call = HandleCompleteDiff "diffKey list" diffKey | ResetCompletedDiffs

fun call_step :: "hook_state \<Rightarrow> call \<Rightarrow> hook_state" where
  "call_step s (HandleCompleteDiff rendered k) = setCompletedDiffs (handleCompleteDiff rendered k) s"
| "call_step s ResetCompletedDiffs = resetCompletedDiffs s"

definition calls :: "hook_state \<Rightarrow> call list \<Rightarrow> hook_state" where
  "calls s cs = foldl call_step s cs"

text \<open>
  A sequence of calls, from the state \<open>s\<close>, in which every handler called for a key that
  the current list holds is the handler of a render that saw the key. The handler of a
  render of the current list is such a handler, for every key.
\<close>

fun handlers_saw_key :: "hook_state \<Rightarrow> call list \<Rightarrow> bool" where
  "handlers_saw_key s [] = True"
| "handlers_saw_key s (HandleCompleteDiff rendered k # cs) =
     ((k \<in> set (completedDiffs s) \<longrightarrow> k \<in> set rendered)
      \<and> handlers_saw_key (call_step s (HandleCompleteDiff rendered k)) cs)"
| "handlers_saw_key s (ResetCompletedDiffs # cs) =
     handlers_saw_key (call_step s ResetCompletedDiffs) cs"

subsection \<open>Invariants of the state machine\<close>



section \<open>Completion tracking\<close>

lemma filter_neq_removeAll: "filter (\<lambda>x. x \<noteq> k) L = removeAll k L"
  by (induction L) auto

text \<open>
  C1. \<open>handleCompleteDiff\<close> is a membership toggle. For every list \<open>L\<close> of completed keys,
  rendered and current, and every key \<open>k\<close>: when \<open>k\<close> is in \<open>L\<close> the new list is \<open>L\<close>
  filtered of \<open>k\<close>, which is \<open>L\<close> with every occurrence of \<open>k\<close> removed; when \<open>k\<close> is not in
  \<open>L\<close> the new list is \<open>L\<close> with \<open>k\<close> appended at the end.
\<close>

theorem handleCompleteDiff_toggle:
  "(k \<in> set L \<longrightarrow> handleCompleteDiff L k L = filter (\<lambda>x. x \<noteq> k) L
                    \<and> handleCompleteDiff L k L = removeAll k L)
   \<and> (k \<notin> set L \<longrightarrow> handleCompleteDiff L k L = L @ [k])"
  by (simp add: handleCompleteDiff_def filter_neq_removeAll)

theorem handleCompleteDiff_toggle_witness:
  "handleCompleteDiff [''a'', ''b'', ''a''] ''a'' [''a'', ''b'', ''a''] = [''b'']
   \<and> handleCompleteDiff [''b''] ''a'' [''b''] = [''b'', ''a'']"
  using handleCompleteDiff_toggle [of "''a''" "[''a'', ''b'', ''a'']"]
        handleCompleteDiff_toggle [of "''a''" "[''b'']"]
  by simp

lemma handleCompleteDiff_distinct:
  "distinct L \<Longrightarrow> distinct (handleCompleteDiff L k L)"
  by (simp add: handleCompleteDiff_def)

lemma call_step_distinct:
  "distinct (completedDiffs s) \<Longrightarrow> handlers_saw_key s [c]
     \<Longrightarrow> distinct (completedDiffs (call_step s c))"
  by (cases c)
     (auto simp: setCompletedDiffs_def resetCompletedDiffs_def handleCompleteDiff_def)

lemma calls_distinct:
  "distinct (completedDiffs s) \<Longrightarrow> handlers_saw_key s cs
     \<Longrightarrow> distinct (completedDiffs (calls s cs))"
  unfolding calls_def
proof (induction cs arbitrary: s)
  case Nil
  then show ?case by simp
next
  case (Cons c cs)
  from Cons.prems(2) have c: "handlers_saw_key s [c]"
    and rest: "handlers_saw_key (call_step s c) cs"
    by (cases c; simp)+
  from Cons.prems(1) c have "distinct (completedDiffs (call_step s c))"
    by (rule call_step_distinct)
  then have "distinct (completedDiffs (foldl call_step (call_step s c) cs))"
    using rest by (rule Cons.IH)
  then show ?case by simp
qed

text \<open>The handler of a render of the current list saw every key the list holds.\<close>

lemma handlers_saw_key_current:
  "handlers_saw_key s [HandleCompleteDiff (completedDiffs s) k]"
  by simp

text \<open>
  C2, as stated: after any sequence of \<open>handleCompleteDiff\<close> and \<open>resetCompletedDiffs\<close>
  calls from the initial empty list, \<open>completedDiffs\<close> has no duplicate key. This fails
  for two calls, on one key, through the handler of the first render: that render saw
  the empty list, so both calls append.
\<close>

theorem completedDiffs_duplicate_counterexample:
  "completedDiffs (calls (initial_state Map.empty)
      [HandleCompleteDiff (completedDiffs (initial_state Map.empty)) ''k'',
       HandleCompleteDiff (completedDiffs (initial_state Map.empty)) ''k'']) = [''k'', ''k'']
   \<and> \<not> distinct (completedDiffs (calls (initial_state Map.empty)
      [HandleCompleteDiff (completedDiffs (initial_state Map.empty)) ''k'',
       HandleCompleteDiff (completedDiffs (initial_state Map.empty)) ''k'']))"
  by (simp add: calls_def initial_state_def setCompletedDiffs_def handleCompleteDiff_def)

text \<open>
  C2, amended. In every state reached from the initial state by a sequence of
  \<open>resetCompletedDiffs\<close> calls and of \<open>handleCompleteDiff\<close> calls in which no key that
  the current list holds is toggled through a handler whose render did not see it, as
  is the case when the component has rendered between the calls, \<open>completedDiffs\<close> has
  no duplicate key, so that its length is the number of its members.
\<close>

theorem completedDiffs_no_duplicates:
  "handlers_saw_key (initial_state st) cs \<Longrightarrow>
     distinct (completedDiffs (calls (initial_state st) cs))
     \<and> card (set (completedDiffs (calls (initial_state st) cs)))
         = length (completedDiffs (calls (initial_state st) cs))"
proof -
  assume saw: "handlers_saw_key (initial_state st) cs"
  have "distinct (completedDiffs (initial_state st))"
    by (simp add: initial_state_def)
  then have "distinct (completedDiffs (calls (initial_state st) cs))"
    using saw by (rule calls_distinct)
  then show ?thesis
    by (simp add: distinct_card)
qed

theorem completedDiffs_no_duplicates_witness:
  "handlers_saw_key (initial_state Map.empty)
      [HandleCompleteDiff [] ''a'', HandleCompleteDiff [''a''] ''b'',
       HandleCompleteDiff [''a'', ''b''] ''a'', HandleCompleteDiff [''a'', ''b''] ''c'']
   \<and> completedDiffs (calls (initial_state Map.empty)
        [HandleCompleteDiff [] ''a'', HandleCompleteDiff [''a''] ''b'',
         HandleCompleteDiff [''a'', ''b''] ''a'', HandleCompleteDiff [''a'', ''b''] ''c''])
      = [''b'', ''c'']
   \<and> distinct (completedDiffs (calls (initial_state Map.empty)
        [HandleCompleteDiff [] ''a'', HandleCompleteDiff [''a''] ''b'',
         HandleCompleteDiff [''a'', ''b''] ''a'', HandleCompleteDiff [''a'', ''b''] ''c'']))"
proof -
  have saw: "handlers_saw_key (initial_state Map.empty)
      [HandleCompleteDiff [] ''a'', HandleCompleteDiff [''a''] ''b'',
       HandleCompleteDiff [''a'', ''b''] ''a'', HandleCompleteDiff [''a'', ''b''] ''c'']"
    by (simp add: initial_state_def setCompletedDiffs_def handleCompleteDiff_def)
  have val: "completedDiffs (calls (initial_state Map.empty)
        [HandleCompleteDiff [] ''a'', HandleCompleteDiff [''a''] ''b'',
         HandleCompleteDiff [''a'', ''b''] ''a'', HandleCompleteDiff [''a'', ''b''] ''c''])
      = [''b'', ''c'']"
    by (simp add: calls_def initial_state_def setCompletedDiffs_def handleCompleteDiff_def)
  from saw val completedDiffs_no_duplicates [OF saw] show ?thesis
    by simp
qed

text \<open>
  The updater of a handler depends on the list its render saw: two calls through the
  handler of one and the same render both take the branch that render decides.
\<close>

lemma handleCompleteDiff_same_render:
  "handleCompleteDiff [] k (handleCompleteDiff [] k []) = [k, k]"
  by (simp add: handleCompleteDiff_def)

text \<open>
  C3. Toggling a key \<open>k\<close> leaves the completion status of every other key \<open>j\<close> as it
  was: \<open>j\<close> is in the list after \<open>handleCompleteDiff k\<close> exactly when it was in the list
  before.
\<close>

theorem handleCompleteDiff_frame:
  "j \<noteq> k \<Longrightarrow> j \<in> set (handleCompleteDiff L k L) \<longleftrightarrow> j \<in> set L"
  by (auto simp: handleCompleteDiff_def)

theorem handleCompleteDiff_frame_witness:
  "''b'' \<noteq> ''a''
   \<and> (''b'' \<in> set (handleCompleteDiff [''b'', ''a''] ''a'' [''b'', ''a''])
        \<longleftrightarrow> ''b'' \<in> set [''b'', ''a''])"
  using handleCompleteDiff_frame [of "''b''" "''a''" "[''b'', ''a'']"]
  by simp




section \<open>Scrolling to the anchor\<close>

lemma jumpToAnchor_fst: "fst (jumpToAnchor b stop) = True"
  by (simp add: jumpToAnchor_def split: option.split)

lemma jumpToAnchor_stopped: "jumpToAnchor b True = (True, [])"
  by (simp add: jumpToAnchor_def)

lemma jumpToAnchorOnce_stopped: "jumpToAnchorOnce bs True = (True, [])"
  by (induction bs) (simp_all add: jumpToAnchor_stopped)

text \<open>
  C5. The scroll to the anchor is one-shot. \<open>jumpToAnchor\<close> returns \<open>true\<close> in every
  browser and from either reducer state. Hence after the first dispatch the reducer
  state is \<open>true\<close> whatever is dispatched later, and all scroll calls of a sequence of
  dispatches are those of its first dispatch: from the state \<open>true\<close> no dispatch scrolls.
\<close>

theorem jumpToAnchor_one_shot:
  "fst (jumpToAnchor b stop) = True
   \<and> fst (jumpToAnchorOnce (b # bs) stop) = True
   \<and> snd (jumpToAnchorOnce (b # bs) stop) = snd (jumpToAnchor b stop)
   \<and> jumpToAnchorOnce bs True = (True, [])"
proof -
  obtain es where first: "jumpToAnchor b stop = (True, es)"
    using jumpToAnchor_fst [of b stop] by (cases "jumpToAnchor b stop") simp
  then have "jumpToAnchorOnce (b # bs) stop = (True, es)"
    by (simp add: jumpToAnchorOnce_stopped)
  with first show ?thesis
    by (simp add: jumpToAnchorOnce_stopped)
qed

lemma stopScrolling_step: "stopScrolling (hooks w) \<Longrightarrow> stopScrolling (hooks (step w e))"
  by (cases e)
     (simp_all add: jumpToAnchor_stopped handleCompletedFilesCounterClick_def
        handleViewStyleChange_def setCompletedDiffs_def resetCompletedDiffs_def
        useEffect_isDone_def split: prod.split)

text \<open>In the mounted component too, no event takes the reducer state back to \<open>false\<close>.\<close>

lemma stopScrolling_run: "stopScrolling (hooks w) \<Longrightarrow> stopScrolling (hooks (run w evs))"
  unfolding run_def
  by (induction evs arbitrary: w) (simp_all add: stopScrolling_step)

section \<open>View style and local storage\<close>

lemma step_storage_frame:
  "k \<noteq> ''viewStyle'' \<Longrightarrow> localStorage (step w e) k = localStorage w k"
  by (cases e)
     (simp_all add: handleViewStyleChange_def localStorage_setItem_def
        handleCompletedFilesCounterClick_def split: prod.split)

lemma run_storage_frame:
  "k \<noteq> ''viewStyle'' \<Longrightarrow> localStorage (run w evs) k = localStorage w k"
  unfolding run_def
  by (induction evs arbitrary: w) (simp_all add: step_storage_frame)

text \<open>
  C6, as stated: the initial view style is the stored value of the key \<open>viewStyle\<close>, or
  \<open>split\<close> when the key is absent. This fails for a stored empty string, which
  \<open>handleViewStyleChange\<close> stores like any other string: the key is then present, its
  value is the empty string, and the component mounted next starts with \<open>split\<close>.
\<close>

theorem viewStyle_initial_counterexample:
  "localStorage_getItem (snd (handleViewStyleChange '''' (initial_state Map.empty, Map.empty)))
      ''viewStyle'' = Some ''''
   \<and> diffViewStyle (initial_state (snd (handleViewStyleChange '''' (initial_state Map.empty, Map.empty))))
       = ''split''"
  by (simp add: handleViewStyleChange_def initial_state_def localStorage_getItem_def
      localStorage_setItem_def js_or_def)

text \<open>
  C6, amended. The only storage key the component reads or writes is \<open>viewStyle\<close>:
  \<^item> the initial view style is the stored value of that key when it is present and not
    empty, and \<open>split\<close> when it is absent or empty;
  \<^item> the initial state is the same for two storages that agree on that key;
  \<^item> for every string \<open>s\<close>, \<open>handleViewStyleChange s\<close> sets the view style and the stored
    \<open>viewStyle\<close> to \<open>s\<close> and leaves every other key as it was;
  \<^item> no sequence of events of the mounted component changes any other key.
\<close>

theorem viewStyle_only_storage_key:
  "(localStorage_getItem st ''viewStyle'' = Some v \<and> v \<noteq> [] \<longrightarrow> diffViewStyle (initial_state st) = v)
   \<and> (localStorage_getItem st ''viewStyle'' = None \<or> localStorage_getItem st ''viewStyle'' = Some []
        \<longrightarrow> diffViewStyle (initial_state st) = ''split'')
   \<and> (localStorage_getItem st ''viewStyle'' = localStorage_getItem st' ''viewStyle''
        \<longrightarrow> initial_state st = initial_state st')
   \<and> diffViewStyle (fst (handleViewStyleChange s (h, st))) = s
   \<and> localStorage_getItem (snd (handleViewStyleChange s (h, st))) ''viewStyle'' = Some s
   \<and> (k \<noteq> ''viewStyle'' \<longrightarrow>
         localStorage_getItem (snd (handleViewStyleChange s (h, st))) k = localStorage_getItem st k)
   \<and> (k \<noteq> ''viewStyle'' \<longrightarrow>
         localStorage_getItem (localStorage (run w evs)) k = localStorage_getItem (localStorage w) k)"
proof (intro conjI impI)
  show "k \<noteq> ''viewStyle'' \<Longrightarrow>
    localStorage_getItem (localStorage (run w evs)) k = localStorage_getItem (localStorage w) k"
    by (simp add: localStorage_getItem_def run_storage_frame)
qed (auto simp: initial_state_def js_or_def localStorage_getItem_def handleViewStyleChange_def
      localStorage_setItem_def)

theorem viewStyle_only_storage_key_witness:
  "diffViewStyle (initial_state [''viewStyle'' \<mapsto> ''unified'']) = ''unified''
   \<and> diffViewStyle (initial_state Map.empty) = ''split''
   \<and> initial_state [''viewStyle'' \<mapsto> ''unified'', ''other'' \<mapsto> ''x'']
       = initial_state [''viewStyle'' \<mapsto> ''unified'']
   \<and> localStorage_getItem
        (snd (handleViewStyleChange ''split'' (initial_state Map.empty, [''viewStyle'' \<mapsto> ''unified''])))
        ''viewStyle'' = Some ''split''
   \<and> localStorage_getItem
        (snd (handleViewStyleChange ''split'' (initial_state Map.empty, [''other'' \<mapsto> ''x''])))
        ''other'' = Some ''x''
   \<and> localStorage_getItem
        (localStorage (run (mount [''other'' \<mapsto> ''x''] True
             \<lparr> isLoading = False, isDone = True, diff = [] \<rparr> :: unit world)
           [ViewStyleChange ''unified''])) ''other'' = Some ''x''"
  using viewStyle_only_storage_key [of "[''viewStyle'' \<mapsto> ''unified'']" "''unified''"
          "[''viewStyle'' \<mapsto> ''unified'', ''other'' \<mapsto> ''x'']" "''split''"
          "initial_state Map.empty" "''other''"
          "mount [''other'' \<mapsto> ''x''] True \<lparr> isLoading = False, isDone = True, diff = [] \<rparr> :: unit world"
          "[ViewStyleChange ''unified'']"]
        viewStyle_only_storage_key [of Map.empty "''unified''" Map.empty "''split''"
          "initial_state Map.empty" "''other''"
          "mount [''other'' \<mapsto> ''x''] True \<lparr> isLoading = False, isDone = True, diff = [] \<rparr> :: unit world"
          "[ViewStyleChange ''unified'']"]
        viewStyle_only_storage_key [of "[''other'' \<mapsto> ''x'']" "''unified''" Map.empty "''split''"
          "initial_state Map.empty" "''other''"
          "mount [''other'' \<mapsto> ''x''] True \<lparr> isLoading = False, isDone = True, diff = [] \<rparr> :: unit world"
          "[ViewStyleChange ''unified'']"]
  by (simp add: localStorage_getItem_def localStorage_setItem_def mount_def run_def
      handleViewStyleChange_def initial_state_def js_or_def)

section \<open>The popover of the completed-files counter\<close>








section \<open>Diff keys\<close>

text \<open>
  C8. \<open>getDiffKey\<close> is the concatenation of \<open>oldRevision\<close> and \<open>newRevision\<close>, and it is
  not injective: two diffs with distinct pairs of revisions have the same key.
\<close>

theorem getDiffKey_not_injective:
  "getDiffKey f = oldRevision f @ newRevision f
   \<and> (\<exists>(g :: diff_file) (h :: diff_file).
         (oldRevision g, newRevision g) \<noteq> (oldRevision h, newRevision h)
         \<and> getDiffKey g = getDiffKey h)"
proof
  show "getDiffKey f = oldRevision f @ newRevision f"
    by (simp add: getDiffKey_def)
next
  show "\<exists>(g :: diff_file) (h :: diff_file).
         (oldRevision g, newRevision g) \<noteq> (oldRevision h, newRevision h)
         \<and> getDiffKey g = getDiffKey h"
    by (rule exI [where x = "\<lparr> oldRevision = ''a'', newRevision = ''bc'' \<rparr>"],
        rule exI [where x = "\<lparr> oldRevision = ''ab'', newRevision = ''c'' \<rparr>"])
       (simp add: getDiffKey_def)
qed

section \<open>Resetting the completed diffs\<close>









section \<open>The done message\<close>

text \<open>
  C10. \<open>renderUpgradeDoneMessage\<close> yields the message exactly when the length of \<open>diff\<close>
  equals the length of \<open>completedDiffs\<close>, a comparison of counts; in particular it yields
  the message for an empty diff list with no completions. The main view, rendered when
  \<open>shouldShowDiff\<close> holds and \<open>isLoading\<close> is false, holds the result of that call on the
  \<open>diff\<close> of the hook and the \<open>completedDiffs\<close> of the state.
\<close>

theorem upgrade_done_message:
  "(renderUpgradeDoneMessage d c = Alert_upgrade_done \<longleftrightarrow> length d = length c)
   \<and> renderUpgradeDoneMessage [] [] = Alert_upgrade_done
   \<and> (showDiff \<and> \<not> isLoading f \<longrightarrow>
        (\<exists>v. DiffViewer showDiff f s = Main v
           \<and> (upgradeDoneMessage v = Alert_upgrade_done
                \<longleftrightarrow> length (diff f) = length (completedDiffs s))))"
  by (simp add: renderUpgradeDoneMessage_def DiffViewer_def)

theorem upgrade_done_message_witness:
  "\<not> isLoading \<lparr> isLoading = False, isDone = True, diff = [] \<rparr>
   \<and> (\<exists>v. DiffViewer True \<lparr> isLoading = False, isDone = True, diff = [] \<rparr> (initial_state Map.empty)
            = Main v
          \<and> upgradeDoneMessage v = Alert_upgrade_done)"
  using upgrade_done_message [of "[]" "[]" True "\<lparr> isLoading = False, isDone = True, diff = [] \<rparr>"
      "initial_state Map.empty"]
  by (auto simp: initial_state_def)

end
